theory Spec2Isabelle
  imports
    Complex_Main
    "HOL-Library.Sublist"
    "HOL-Library.AList"
    "HOL-Library.Char_ord"
    "HOL-Library.List_Lexorder"
begin

section \<open>The CPU mark lookup of \<^verbatim>\<open>marklookup/get_mark_of_cpu.py\<close>\<close>

text \<open>
  A shallow embedding of the class \<^verbatim>\<open>CpuAssessor\<close> and of \<^verbatim>\<open>get_mark_json\<close>.
  Python strings are modelled as \<^typ>\<open>string\<close>; the character classes of the regular
  expressions (\<^verbatim>\<open>\d\<close>, \<^verbatim>\<open>\w\<close>, \<^verbatim>\<open>[A-Z]\<close>) and the white space of \<^verbatim>\<open>str.strip\<close> are
  the ASCII ones, so the model speaks about ASCII input.
\<close>

subsection \<open>Python string operations\<close>

definition isdigit :: "char \<Rightarrow> bool" where
  "isdigit c = (c \<in> set ''0123456789'')"

definition isupper :: "char \<Rightarrow> bool" where
  "isupper c = (c \<in> set ''ABCDEFGHIJKLMNOPQRSTUVWXYZ'')"

text \<open>The class \<^verbatim>\<open>\w\<close>: letters, digits and the underscore.\<close>

definition isword :: "char \<Rightarrow> bool" where
  "isword c = (isdigit c \<or> isupper c \<or> c \<in> set ''abcdefghijklmnopqrstuvwxyz_'')"

text \<open>White space as \<^verbatim>\<open>str.strip()\<close> sees it (code points 9-13, 28-31 and 32).\<close>

definition isspace :: "char \<Rightarrow> bool" where
  "isspace c = (c \<in> set [CHR 0x09, CHR 0x0A, CHR 0x0B, CHR 0x0C, CHR 0x0D,
                          CHR 0x1C, CHR 0x1D, CHR 0x1E, CHR 0x1F, CHR 0x20])"

text \<open>\<^verbatim>\<open>s.strip()\<close>\<close>

definition strip :: "string \<Rightarrow> string" where
  "strip s = rev (dropWhile isspace (rev (dropWhile isspace s)))"

text \<open>\<^verbatim>\<open>sub in s\<close>\<close>

fun contains :: "string \<Rightarrow> string \<Rightarrow> bool" where
  "contains sub [] = (sub = [])"
| "contains sub (c # cs) = (prefix sub (c # cs) \<or> contains sub cs)"

text \<open>\<^verbatim>\<open>s.replace(old, '')\<close> for a non-empty \<^verbatim>\<open>old\<close>: the occurrences are removed from
  left to right, without overlap.\<close>

function remove_all :: "string \<Rightarrow> string \<Rightarrow> string" where
  "remove_all old [] = []"
| "remove_all old (c # cs) =
     (if old \<noteq> [] \<and> prefix old (c # cs)
      then remove_all old (drop (length old) (c # cs))
      else c # remove_all old cs)"
  by pat_completeness auto
termination
  by (relation "measure (\<lambda>(old, s). length s)") (auto simp: neq_Nil_conv)

text \<open>\<^verbatim>\<open>s.split(sep)[0]\<close> for a non-empty \<^verbatim>\<open>sep\<close>: what stands before the first
  occurrence of \<^verbatim>\<open>sep\<close>, the whole string when there is none.\<close>

fun before :: "string \<Rightarrow> string \<Rightarrow> string" where
  "before sep [] = []"
| "before sep (c # cs) = (if prefix sep (c # cs) then [] else c # before sep cs)"

text \<open>\<^verbatim>\<open>sep.join(xs)\<close>\<close>

fun join :: "string \<Rightarrow> string list \<Rightarrow> string" where
  "join sep [] = []"
| "join sep [x] = x"
| "join sep (x # y # ys) = x @ sep @ join sep (y # ys)"

text \<open>The part of a string that \<^verbatim>\<open>.*\<close> can run over: \<^verbatim>\<open>.\<close> matches no line feed.\<close>

definition first_line :: "string \<Rightarrow> string" where
  "first_line s = takeWhile (\<lambda>c. c \<noteq> CHR 0x0A) s"

text \<open>What \<^verbatim>\<open>$\<close> allows: the end of the string, or the line feed that ends it.\<close>

definition chomp :: "string \<Rightarrow> string" where
  "chomp t = (if t \<noteq> [] \<and> last t = CHR 0x0A then butlast t else t)"

subsection \<open>The tokenizer \<^verbatim>\<open>_keytoset\<close>\<close>

definition issep :: "char \<Rightarrow> bool" where
  "issep c = (c \<in> set '' -;,@'')"

text \<open>\<^verbatim>\<open>re.split(r'[ \-;,@]+', k)\<close>: the pieces between the runs of separators, with an
  empty piece where the string starts or ends with a separator.\<close>

function re_split :: "string \<Rightarrow> string list" where
  "re_split s =
     (if dropWhile (\<lambda>c. \<not> issep c) s = [] then [s]
      else takeWhile (\<lambda>c. \<not> issep c) s
             # re_split (dropWhile issep (dropWhile (\<lambda>c. \<not> issep c) s)))"
  by pat_completeness auto
termination
proof (relation "measure length")
  show "wf (measure length)" by simp
next
  fix s :: string
  assume ne: "dropWhile (\<lambda>c. \<not> issep c) s \<noteq> []"
  then obtain c r where cr: "dropWhile (\<lambda>c. \<not> issep c) s = c # r"
    by (cases "dropWhile (\<lambda>c. \<not> issep c) s") auto
  have "issep c" using cr hd_dropWhile [of "\<lambda>c. \<not> issep c" s] by auto
  then have "length (dropWhile issep (c # r)) \<le> length r"
    by (simp add: length_dropWhile_le)
  moreover have "length (c # r) \<le> length s"
    using cr length_dropWhile_le [of "\<lambda>c. \<not> issep c" s] by simp
  ultimately show "(dropWhile issep (dropWhile (\<lambda>c. \<not> issep c) s), s) \<in> measure length"
    using cr by simp
qed

declare re_split.simps [simp del]

text \<open>\<^verbatim>\<open>re.match(r'^(?P<D>\d+)$', t)\<close> as a truth value.\<close>

definition re_numeric :: "string \<Rightarrow> bool" where
  "re_numeric t = (chomp t \<noteq> [] \<and> list_all isdigit (chomp t))"

text \<open>\<^verbatim>\<open>re.match(r'^(?P<D>\d+)(?P<L>\w+)$', t)\<close>: the groups D and L of the match.
  \<^verbatim>\<open>\d+\<close> is greedy and gives one digit back to \<^verbatim>\<open>\w+\<close> when all of \<^verbatim>\<open>t\<close> is digits.\<close>

definition re_digits_letters :: "string \<Rightarrow> (string \<times> string) option" where
  "re_digits_letters t =
     (let u = chomp t; d = takeWhile isdigit u; l = dropWhile isdigit u in
      if d = [] then None
      else if l = [] then (if 2 \<le> length d then Some (butlast d, [last d]) else None)
      else if list_all isword l then Some (d, l)
      else None)"

text \<open>The body of the loop over the pieces, on the set \<^verbatim>\<open>s\<close>.\<close>

definition keytoset_step :: "string \<Rightarrow> string set \<Rightarrow> string set" where
  "keytoset_step t s =
     (if t = [] \<or> contains ''Duo'' t then s
      else case re_digits_letters t of
        None \<Rightarrow> insert t s
      | Some (d, l) \<Rightarrow>
          if re_numeric t then insert t s
          else insert d s \<union> set (map (\<lambda>c. [c]) l))"

definition keytoset :: "string \<Rightarrow> string set" where
  "keytoset k = fold keytoset_step (re_split k) {}"

subsection \<open>Dictionaries\<close>

text \<open>
  A Python \<^verbatim>\<open>dict\<close> keeps its keys in insertion order; \<^verbatim>\<open>d[k] = v\<close> replaces the value of
  a key that is present, in place, and appends a new key. This is \<^const>\<open>AList.update\<close> on
  an association list; \<^const>\<open>map_of\<close> is the lookup.
\<close>

type_synonym ('k, 'v) dict = "('k \<times> 'v) list"

text \<open>\<^verbatim>\<open>d.get(k, default)\<close>\<close>

definition dict_get :: "('k, 'v) dict \<Rightarrow> 'k \<Rightarrow> 'v \<Rightarrow> 'v" where
  "dict_get d k dflt = (case map_of d k of Some v \<Rightarrow> v | None \<Rightarrow> dflt)"

text \<open>A dict comprehension \<^verbatim>\<open>{k: v for ...}\<close> over the pairs it produces, in order.\<close>

definition dict_of_items :: "('k \<times> 'v) list \<Rightarrow> ('k, 'v) dict" where
  "dict_of_items kvs = fold (\<lambda>(k, v) d. AList.update k v d) kvs []"

subsection \<open>Errors and the state of the class\<close>

datatype error =
    RuntimeError string
  | ValueError
  | TypeError
  | OSError
  | ZeroDivisionError

text \<open>A call returns a value or raises.\<close>

datatype 'a outcome = Returned 'a | Raised error

datatype MatchStep =
    FAILED | SIMPLE_0 | SIMPLE_1 | SIMPLE_2 | SIMPLE_3
  | CLEVER_1 | CLEVER_2 | CLEVER_3_1 | CLEVER_3_2 | DESPERATE_1

text \<open>A mark with the line of its row.\<close>

type_synonym markline = "int \<times> nat"

text \<open>The class attributes \<^verbatim>\<open>__is_initialized\<close>, \<^verbatim>\<open>__marks\<close>, \<^verbatim>\<open>__markswithsets\<close>
  (each value a dict with \<^verbatim>\<open>"toks"\<close> and \<^verbatim>\<open>"mark"\<close>) and \<^verbatim>\<open>__marksnoat\<close>.\<close>

record assessor =
  is_initialized :: bool
  marks :: "(string, markline) dict"
  markswithsets :: "(string, string set \<times> markline) dict"
  marksnoat :: "(string, markline) dict"

text \<open>The class as the interpreter creates it.\<close>

definition initial :: assessor where
  "initial = \<lparr>is_initialized = False, marks = [], markswithsets = [], marksnoat = []\<rparr>"

subsection \<open>Reading the marks file: \<^verbatim>\<open>CpuAssessor.init\<close>\<close>

text \<open>
  A field of a row that \<^verbatim>\<open>csv.DictReader\<close> yields is a string, or \<^verbatim>\<open>None\<close> where the line
  is shorter than the header. A row maps the column names of the header to fields. The file
  system maps a path to the rows of the file; a path it does not map cannot be opened.
\<close>

datatype field = Str string | NoneVal

type_synonym row = "string \<rightharpoonup> field"

type_synonym filesystem = "string \<rightharpoonup> row list"

text \<open>The value of a decimal digit.\<close>

definition digit_val :: "char \<Rightarrow> nat" where
  "digit_val c = (of_char c :: nat) - 48"

text \<open>The digits of an integer literal as \<^verbatim>\<open>int()\<close> reads them: a single underscore may
  stand between two digits.\<close>

fun parse_digits :: "nat \<Rightarrow> string \<Rightarrow> nat option" where
  "parse_digits acc [] = Some acc"
| "parse_digits acc (c # cs) =
     (if isdigit c then parse_digits (10 * acc + digit_val c) cs
      else if c = CHR ''_'' \<and> cs \<noteq> [] \<and> isdigit (hd cs) then parse_digits acc cs
      else None)"

definition parse_nat :: "string \<Rightarrow> nat option" where
  "parse_nat s = (if s \<noteq> [] \<and> isdigit (hd s) then parse_digits 0 s else None)"

text \<open>The white space that \<^verbatim>\<open>int()\<close> allows around an ASCII literal (code points 9-13
  and 32).\<close>

definition int_space :: "char \<Rightarrow> bool" where
  "int_space c = (c \<in> set [CHR 0x09, CHR 0x0A, CHR 0x0B, CHR 0x0C, CHR 0x0D, CHR 0x20])"

text \<open>\<^verbatim>\<open>int(m)\<close> for a string: \<^const>\<open>None\<close> where Python raises \<^verbatim>\<open>ValueError\<close>.\<close>

definition py_int :: "string \<Rightarrow> int option" where
  "py_int m =
     (case rev (dropWhile int_space (rev (dropWhile int_space m))) of
        [] \<Rightarrow> None
      | c # cs \<Rightarrow>
          if c = CHR ''-'' then map_option (\<lambda>n. - int n) (parse_nat cs)
          else if c = CHR ''+'' then map_option int (parse_nat cs)
          else map_option int (parse_nat (c # cs)))"

text \<open>The chains of \<^verbatim>\<open>try: r['name'] except KeyError: ...\<close>, with the errors they end in.\<close>

definition no_name_column :: error where
  "no_name_column = RuntimeError ''Unable to guess which column has the name of the CPU''"

definition no_mark_column :: error where
  "no_mark_column = RuntimeError ''Unable to guess which column has the mark of the CPU''"

definition get_name :: "row \<Rightarrow> field outcome" where
  "get_name r =
     (case r ''name'' of Some v \<Rightarrow> Returned v
      | None \<Rightarrow> (case r ''NAME'' of Some v \<Rightarrow> Returned v
        | None \<Rightarrow> (case r ''CPUNAME'' of Some v \<Rightarrow> Returned v
          | None \<Rightarrow> Raised no_name_column)))"

definition get_cpumark :: "row \<Rightarrow> field outcome" where
  "get_cpumark r =
     (case r ''cpumark'' of Some v \<Rightarrow> Returned v
      | None \<Rightarrow> (case r ''CPUMARK'' of Some v \<Rightarrow> Returned v
        | None \<Rightarrow> Raised no_mark_column))"

text \<open>\<^verbatim>\<open>'Intel' in nam or 'AMD' in nam\<close>\<close>

definition is_vendor :: "string \<Rightarrow> bool" where
  "is_vendor nam = (contains ''Intel'' nam \<or> contains ''AMD'' nam)"

text \<open>
  The loop over the rows. It writes into \<^verbatim>\<open>__marks\<close> as it goes, so what it has written
  stays when a row raises: the result is the exception, if any, and the dict.
  \<^verbatim>\<open>'Intel' in None\<close> and \<^verbatim>\<open>int(None)\<close> raise \<^verbatim>\<open>TypeError\<close>.
\<close>

fun init_rows ::
  "row list \<Rightarrow> nat \<Rightarrow> (string, markline) dict \<Rightarrow> error option \<times> (string, markline) dict"
where
  "init_rows [] line mk = (None, mk)"
| "init_rows (r # rs) line mk =
     (case get_name r of
        Raised e \<Rightarrow> (Some e, mk)
      | Returned NoneVal \<Rightarrow> (Some TypeError, mk)
      | Returned (Str nam) \<Rightarrow>
          if is_vendor nam then
            (case get_cpumark r of
               Raised e \<Rightarrow> (Some e, mk)
             | Returned NoneVal \<Rightarrow> (Some TypeError, mk)
             | Returned (Str m) \<Rightarrow>
                 (case py_int m of
                    None \<Rightarrow> (Some ValueError, mk)
                  | Some i \<Rightarrow> init_rows rs (line + 1) (AList.update nam (i, line) mk)))
          else init_rows rs (line + 1) mk)"

text \<open>\<^verbatim>\<open>{k.split('@')[0].strip(): v for k, v in __marks.items() if '@' in k}\<close>\<close>

definition build_marksnoat :: "(string, markline) dict \<Rightarrow> (string, markline) dict" where
  "build_marksnoat mk =
     dict_of_items (map (\<lambda>(k, v). (strip (before ''@'' k), v))
                        (filter (\<lambda>(k, v). contains ''@'' k) mk))"

text \<open>\<^verbatim>\<open>{k: {"toks": _keytoset(k), "mark": v} for k, v in __marks.items()}\<close>\<close>

definition build_markswithsets ::
  "(string, markline) dict \<Rightarrow> (string, string set \<times> markline) dict" where
  "build_markswithsets mk = dict_of_items (map (\<lambda>(k, v). (k, (keytoset k, v))) mk)"

definition init :: "filesystem \<Rightarrow> string \<Rightarrow> assessor \<Rightarrow> unit outcome \<times> assessor" where
  "init fs marksfile st =
     (if is_initialized st then (Returned (), st)
      else case fs marksfile of
        None \<Rightarrow> (Raised OSError, st)
      | Some rows \<Rightarrow>
          (case init_rows rows 2 (marks st) of
             (Some e, mk) \<Rightarrow> (Raised e, st\<lparr>marks := mk\<rparr>)
           | (None, mk) \<Rightarrow>
               (Returned (),
                st\<lparr>marks := mk,
                   marksnoat := build_marksnoat mk,
                   markswithsets := build_markswithsets mk\<rparr>)))"

text \<open>\<^verbatim>\<open>CpuAssessor(mf)\<close>: \<^verbatim>\<open>__init__\<close> sets the flag once \<^verbatim>\<open>init\<close> has returned.\<close>

definition CpuAssessor :: "filesystem \<Rightarrow> string \<Rightarrow> assessor \<Rightarrow> unit outcome \<times> assessor" where
  "CpuAssessor fs mf st =
     (case init fs mf st of
        (Raised e, st') \<Rightarrow> (Raised e, st')
      | (Returned u, st') \<Rightarrow> (Returned (), st'\<lparr>is_initialized := True\<rparr>))"

subsection \<open>The cascade \<^verbatim>\<open>_nmatch\<close>\<close>

text \<open>\<^verbatim>\<open>x.replace('(R)', '').replace('(TM)', '').replace(' CPU', '')\<close>\<close>

definition strip_markers :: "string \<Rightarrow> string" where
  "strip_markers x = remove_all '' CPU'' (remove_all ''(TM)'' (remove_all ''(R)'' x))"

text \<open>The start of the last \<^verbatim>\<open>Intel\<close> or \<^verbatim>\<open>AMD\<close> of a line, with what follows it.\<close>

fun last_vendor :: "string \<Rightarrow> string option" where
  "last_vendor [] = None"
| "last_vendor (c # cs) =
     (case last_vendor cs of
        Some k \<Rightarrow> Some k
      | None \<Rightarrow>
          if prefix ''Intel'' (c # cs) \<or> prefix ''AMD'' (c # cs) then Some (c # cs) else None)"

text \<open>The group \<^verbatim>\<open>keep\<close> of \<^verbatim>\<open>re.match(r'.*(?P<keep>(Intel|AMD).*)', cx)\<close>. The first
  \<^verbatim>\<open>.*\<close> is greedy: it gives back as little as it must, so \<^verbatim>\<open>keep\<close> starts at the last
  vendor marker of the first line and ends with that line.\<close>

definition re_keep :: "string \<Rightarrow> string option" where
  "re_keep cx = last_vendor (first_line cx)"

text \<open>Lines 119 to 121: \<^verbatim>\<open>cx\<close> becomes the group \<^verbatim>\<open>keep\<close> when the expression matches.\<close>

definition vendor_step :: "string \<Rightarrow> string" where
  "vendor_step cx = (case re_keep cx of Some keep \<Rightarrow> keep | None \<Rightarrow> cx)"

text \<open>\<^verbatim>\<open>cx\<close> at line 124, where it is looked up for \<^verbatim>\<open>SIMPLE_1\<close>.\<close>

definition cx1 :: "string \<Rightarrow> string" where
  "cx1 x = before '','' (strip (before ''w/'' (vendor_step (strip_markers x))))"

text \<open>\<^verbatim>\<open>cx\<close> at line 129, where it is looked up for \<^verbatim>\<open>SIMPLE_2\<close> and \<^verbatim>\<open>SIMPLE_3\<close>.\<close>

definition cx2 :: "string \<Rightarrow> string" where
  "cx2 x = (if prefix ''AMD'' (cx1 x) then before '' with'' (cx1 x) else cx1 x)"

text \<open>The token set \<^verbatim>\<open>mys\<close> of the query, line 142.\<close>

definition mys :: "string \<Rightarrow> string set" where
  "mys x = keytoset (strip_markers x)"

definition candidates1 :: "assessor \<Rightarrow> string \<Rightarrow> string list" where
  "candidates1 st x = map fst (filter (\<lambda>(k, v). fst v \<subseteq> mys x) (markswithsets st))"

definition threshold2 :: "string \<Rightarrow> nat" where
  "threshold2 x = (if contains ''AMD'' (strip_markers x) then 3 else 4)"

definition candidates2 :: "assessor \<Rightarrow> string \<Rightarrow> string list" where
  "candidates2 st x =
     map fst (filter (\<lambda>(k, v). threshold2 x \<le> card (mys x \<inter> fst v)) (markswithsets st))"

text \<open>\<^verbatim>\<open>_keytoset(_) > mys\<close> is the proper superset.\<close>

definition candidates3 :: "assessor \<Rightarrow> string \<Rightarrow> string list" where
  "candidates3 st x = filter (\<lambda>c. mys x \<subset> keytoset c) (candidates2 st x)"

text \<open>The first candidate the loop of lines 156 to 160 returns, if any.\<close>

definition tokenequal :: "assessor \<Rightarrow> string \<Rightarrow> string option" where
  "tokenequal st x =
     find (\<lambda>c. keytoset (strip (before ''@'' c)) = mys x) (candidates3 st x)"

text \<open>The start of the last upper-case letter of a line that a digit follows, with up to
  four of the digits after it.\<close>

fun last_model :: "string \<Rightarrow> string option" where
  "last_model [] = None"
| "last_model (c # cs) =
     (case last_model cs of
        Some m \<Rightarrow> Some m
      | None \<Rightarrow>
          if isupper c \<and> cs \<noteq> [] \<and> isdigit (hd cs)
          then Some (c # take 4 (takeWhile isdigit cs))
          else None)"

text \<open>The group \<^verbatim>\<open>model\<close> of \<^verbatim>\<open>re.match(r'.*(?P<model>[A-Z]\d{1,4}).*', x)\<close>.\<close>

definition re_model :: "string \<Rightarrow> string option" where
  "re_model x = last_model (first_line x)"

definition candidates4 :: "assessor \<Rightarrow> string \<Rightarrow> string list" where
  "candidates4 st x =
     (case re_model (strip_markers x) of
        None \<Rightarrow> []
      | Some model \<Rightarrow> map fst (filter (\<lambda>(k, v). model \<in> fst v) (markswithsets st)))"

text \<open>
  An entry of the list \<^verbatim>\<open>det\<close>. The source formats each entry into a string; the model
  keeps the values that are formatted: the query with its token set, or a list of
  candidates.
\<close>

datatype detail = Tokens string "string set" | Candidates "string list"

type_synonym match = "int \<times> (MatchStep \<times> nat \<times> string) \<times> detail list"

definition hit :: "MatchStep \<Rightarrow> markline \<Rightarrow> string \<Rightarrow> match" where
  "hit step ret name = (fst ret, (step, snd ret, name), [])"

definition nmatch :: "assessor \<Rightarrow> string \<Rightarrow> match" where
  "nmatch st x =
     (if fst (dict_get (marksnoat st) x (0, 0)) \<noteq> 0
        then hit SIMPLE_0 (dict_get (marksnoat st) x (0, 0)) x
      else if fst (dict_get (marks st) (cx1 x) (0, 0)) \<noteq> 0
        then hit SIMPLE_1 (dict_get (marks st) (cx1 x) (0, 0)) (cx1 x)
      else if fst (dict_get (marks st) (cx2 x) (0, 0)) \<noteq> 0
        then hit SIMPLE_2 (dict_get (marks st) (cx2 x) (0, 0)) (cx2 x)
      else if fst (dict_get (marksnoat st) (cx2 x) (0, 0)) \<noteq> 0
        then hit SIMPLE_3 (dict_get (marksnoat st) (cx2 x) (0, 0)) (cx2 x)
      else if length (candidates1 st x) = 1
        then hit CLEVER_1 (dict_get (marks st) (hd (candidates1 st x)) (0, 0))
               (hd (candidates1 st x))
      else if length (candidates2 st x) = 1
        then hit CLEVER_2 (dict_get (marks st) (hd (candidates2 st x)) (0, 0))
               (hd (candidates2 st x))
      else if length (candidates3 st x) = 1
        then hit CLEVER_3_1 (dict_get (marks st) (hd (candidates3 st x)) (0, 0))
               (hd (candidates3 st x))
      else case tokenequal st x of
        Some c \<Rightarrow> hit CLEVER_3_2 (dict_get (marks st) c (0, 0)) c
      | None \<Rightarrow>
          if re_model (strip_markers x) \<noteq> None \<and> length (candidates4 st x) = 1
            then hit DESPERATE_1 (dict_get (marks st) (hd (candidates4 st x)) (0, 0))
                   (hd (candidates4 st x))
          else (0, (FAILED, 0, []),
                [Tokens (strip_markers x) (mys x),
                 Candidates (candidates1 st x), Candidates (candidates2 st x),
                 Candidates (candidates3 st x), Candidates (candidates4 st x)]))"

text \<open>The parts of a result.\<close>

definition mark_of :: "match \<Rightarrow> int" where
  "mark_of r = fst r"

definition step_of :: "match \<Rightarrow> MatchStep" where
  "step_of r = fst (fst (snd r))"

definition line_of :: "match \<Rightarrow> nat" where
  "line_of r = fst (snd (fst (snd r)))"

definition name_of :: "match \<Rightarrow> string" where
  "name_of r = snd (snd (fst (snd r)))"

definition details_of :: "match \<Rightarrow> detail list" where
  "details_of r = snd (snd r)"

text \<open>\<^verbatim>\<open>CpuAssessor.assess\<close>\<close>

definition assess :: "assessor \<Rightarrow> string \<Rightarrow> match outcome" where
  "assess st cpu =
     (if \<not> is_initialized st
      then Raised (RuntimeError ''Class CpuAssessor must be initialized before use'')
      else Returned (nmatch st cpu))"

subsection \<open>\<^verbatim>\<open>get_mark_json\<close>\<close>

text \<open>\<^verbatim>\<open>os.path.basename\<close>: what follows the last slash.\<close>

definition basename :: "string \<Rightarrow> string" where
  "basename p = rev (takeWhile (\<lambda>c. c \<noteq> CHR ''/'') (rev p))"

text \<open>
  The dict that \<^verbatim>\<open>get_mark_json\<close> serialises: the model keeps the values of its keys and
  leaves \<^verbatim>\<open>str\<close> and \<^verbatim>\<open>json.dumps\<close> out. \<^verbatim>\<open>except Exception\<close> catches every error of the
  model.
\<close>

datatype json_result =
    Result (mark: int) (cpustr: string) (hint: MatchStep) (cpuscsv: string)
           (linenum: nat) (line: string) (details: "detail list")
  | Error_result error

definition get_mark_json ::
  "filesystem \<Rightarrow> string \<Rightarrow> string \<Rightarrow> assessor \<Rightarrow> json_result \<times> assessor" where
  "get_mark_json fs cpu_str marksfile st =
     (case CpuAssessor fs marksfile st of
        (Raised e, st') \<Rightarrow> (Error_result e, st')
      | (Returned u, st') \<Rightarrow>
          (case assess st' cpu_str of
             Raised e \<Rightarrow> (Error_result e, st')
           | Returned (ma, (meth, nline, matched), det) \<Rightarrow>
               (Result ma cpu_str meth (basename marksfile) nline matched det, st')))"

subsection \<open>The calibration run \<^verbatim>\<open>CpuAssessor.test\<close>\<close>

text \<open>
  The historical marks are the integers of the JSON file. Python turns them into floats;
  the model computes with the real numbers these floats stand for and leaves rounding
  out. The standard deviation is computed for the log message only and is not modelled.
\<close>

text \<open>\<^verbatim>\<open>int(v)\<close> for a float: the fraction is cut off, towards zero.\<close>

definition py_trunc :: "real \<Rightarrow> int" where
  "py_trunc v = (if 0 \<le> v then \<lfloor>v\<rfloor> else \<lceil>v\<rceil>)"

definition lmarks :: "(int \<times> string) list \<Rightarrow> real list" where
  "lmarks ourmarks = map (\<lambda>om. real_of_int (fst om)) ourmarks"

text \<open>\<^verbatim>\<open>int(sum(lmarks_) / len(ourmarks))\<close>, for a list that is not empty.\<close>

definition avg_of :: "(int \<times> string) list \<Rightarrow> int" where
  "avg_of ourmarks = py_trunc (sum_list (lmarks ourmarks) / real (length ourmarks))"

definition min_of :: "(int \<times> string) list \<Rightarrow> int" where
  "min_of ourmarks = py_trunc (Min (set (lmarks ourmarks)))"

definition max_of :: "(int \<times> string) list \<Rightarrow> int" where
  "max_of ourmarks = py_trunc (Max (set (lmarks ourmarks)))"

text \<open>\<^verbatim>\<open>abs((100.0 * (int(ma) - d)) / d)\<close>, for \<^verbatim>\<open>d\<close> other than zero.\<close>

definition deltapc :: "int \<Rightarrow> int \<Rightarrow> real" where
  "deltapc ma d = \<bar>100 * real_of_int (ma - d) / real_of_int d\<bar>"

record tally =
  nhit :: nat
  nmiss :: nat
  ncorrect :: nat
  nfalse :: nat
  weird :: nat
  stats :: "MatchStep \<Rightarrow> nat"
  failures :: "string list"
  missed :: "(string \<times> (int \<times> string) list) list"

definition tally0 :: tally where
  "tally0 = \<lparr>nhit = 0, nmiss = 0, ncorrect = 0, nfalse = 0, weird = 0,
             stats = (\<lambda>s. 0), failures = [], missed = []\<rparr>"

text \<open>The branch \<^verbatim>\<open>if ma:\<close> of the loop, lines 205 to 230. The divisions raise on an empty
  list of marks and on a minimum, maximum or average that is zero.\<close>

definition judge :: "int \<Rightarrow> (int \<times> string) list \<Rightarrow> real \<Rightarrow> tally \<Rightarrow> tally outcome" where
  "judge ma ourmarks threshold t =
     (if ourmarks = [] \<or> min_of ourmarks = 0 \<or> max_of ourmarks = 0 \<or> avg_of ourmarks = 0
      then Raised ZeroDivisionError
      else Returned
        (t\<lparr>nhit := nhit t + 1,
           weird :=
             (if deltapc ma (avg_of ourmarks) \<le> threshold \<and>
                 \<not> (deltapc ma (min_of ourmarks) \<le> threshold \<and>
                    deltapc ma (max_of ourmarks) \<le> threshold)
              then weird t + 1 else weird t),
           ncorrect :=
             (if deltapc ma (avg_of ourmarks) \<le> threshold then ncorrect t + 1
              else ncorrect t),
           nfalse :=
             (if deltapc ma (avg_of ourmarks) \<le> threshold then nfalse t
              else nfalse t + 1)\<rparr>))"

text \<open>One round of the loop over the names.\<close>

definition test_step ::
  "assessor \<Rightarrow> real \<Rightarrow> string \<times> (int \<times> string) list \<Rightarrow> tally \<Rightarrow> tally outcome" where
  "test_step st threshold entry t =
     (let nam = fst entry; ourmarks = snd entry; r = nmatch st nam;
          t1 = t\<lparr>stats := (stats t)(step_of r := stats t (step_of r) + 1),
                 failures := (if step_of r = FAILED then failures t @ [nam] else failures t)\<rparr>
      in if mark_of r \<noteq> 0 then judge (mark_of r) ourmarks threshold t1
         else Returned (t1\<lparr>nmiss := nmiss t1 + 1, missed := missed t1 @ [(nam, ourmarks)]\<rparr>))"

fun test_loop ::
  "assessor \<Rightarrow> real \<Rightarrow> (string \<times> (int \<times> string) list) list \<Rightarrow> tally \<Rightarrow> tally outcome" where
  "test_loop st threshold [] t = Returned t"
| "test_loop st threshold (e # es) t =
     (case test_step st threshold e t of
        Raised err \<Rightarrow> Raised err
      | Returned t' \<Rightarrow> test_loop st threshold es t')"

text \<open>\<^verbatim>\<open>test\<close> on the items of the dict that \<^verbatim>\<open>json.load\<close> returns.\<close>

definition test ::
  "assessor \<Rightarrow> (string \<times> (int \<times> string) list) list \<Rightarrow> real \<Rightarrow>
   ((MatchStep \<Rightarrow> nat) \<times> (string \<times> (int \<times> string) list) list) outcome" where
  "test st ournames threshold =
     (case test_loop st threshold ournames tally0 of
        Raised err \<Rightarrow> Raised err
      | Returned t \<Rightarrow> Returned (stats t, missed t))"

subsection \<open>Notions used in the statements\<close>

text \<open>A token is settled when it is not empty, holds no separator and is its own token
  set.\<close>

definition settled :: "string \<Rightarrow> bool" where
  "settled t = (t \<noteq> [] \<and> list_all (\<lambda>c. \<not> issep c) t \<and> keytoset_step t {} = {t})"

text \<open>A row whose name is a string with a vendor marker: the rows that are indexed.\<close>

definition vendor_row :: "row \<Rightarrow> bool" where
  "vendor_row r = (case get_name r of Returned (Str nam) \<Rightarrow> is_vendor nam | _ \<Rightarrow> False)"

text \<open>The counter \<^verbatim>\<open>ncorrect\<close> after a round that returned.\<close>

definition ncorrect_after :: "tally outcome \<Rightarrow> nat option" where
  "ncorrect_after r = (case r of Returned t \<Rightarrow> Some (ncorrect t) | Raised e \<Rightarrow> None)"

subsection \<open>Reference data of the examples\<close>

definition i7_query :: string where
  "i7_query = ''Intel(R) Core(TM) i7-7500U CPU @ 2.70GHz''"

text \<open>The row of the scenario, alone in its file.\<close>

definition i7_row :: row where
  "i7_row = [''name'' \<mapsto> Str ''Intel(R) Core(TM) i7-7500U CPU @ 2.70GHz'',
             ''cpumark'' \<mapsto> Str ''3641'']"

definition i7_fs :: filesystem where
  "i7_fs = [''cpumarks.csv'' \<mapsto> [i7_row]]"

definition i7_index :: assessor where
  "i7_index = snd (CpuAssessor i7_fs ''cpumarks.csv'' initial)"

text \<open>A row with the columns \<^verbatim>\<open>name\<close> and \<^verbatim>\<open>cpumark\<close>.\<close>

definition csv_row :: "string \<Rightarrow> string \<Rightarrow> row" where
  "csv_row nam m = [''name'' \<mapsto> Str nam, ''cpumark'' \<mapsto> Str m]"

text \<open>A second marks file, with another mark for the same name.\<close>

definition other_fs :: filesystem where
  "other_fs = [''/srv/marks/other.csv'' \<mapsto>
                 [csv_row ''Intel(R) Core(TM) i7-7500U CPU @ 2.70GHz'' ''9999'']]"

text \<open>Rows without a column for the mark, rows without a column for the name, and rows
  with a mark that is no number.\<close>

definition via_rows :: "row list" where
  "via_rows = [[''name'' \<mapsto> Str ''VIA Nano U3500 @ 1000MHz'', ''score'' \<mapsto> Str ''100'']]"

definition nomark_rows :: "row list" where
  "nomark_rows =
     [[''name'' \<mapsto> Str ''VIA Nano U3500 @ 1000MHz'', ''score'' \<mapsto> Str ''100''],
      [''name'' \<mapsto> Str ''Intel Core i5-3380M @ 2.90GHz'', ''score'' \<mapsto> Str ''3200'']]"

definition noname_rows :: "row list" where
  "noname_rows =
     [[''cpu'' \<mapsto> Str ''Intel Core i5-3380M @ 2.90GHz'', ''cpumark'' \<mapsto> Str ''3200'']]"

definition na_rows :: "row list" where
  "na_rows =
     [csv_row ''AMD Ryzen 5 3500U'' ''7000'',
      csv_row ''Intel Core i5-3380M @ 2.90GHz'' ''N/A'',
      csv_row ''Intel Celeron J1900 @ 1.99GHz'' ''1300'']"

definition one_file :: "row list \<Rightarrow> filesystem" where
  "one_file rows = [''cpumarks.csv'' \<mapsto> rows]"

text \<open>The query of the scenario without \<^verbatim>\<open>(R)\<close>, \<^verbatim>\<open>(TM)\<close> and \<^verbatim>\<open> CPU\<close>, and a file
  that has it.\<close>

definition i7_name :: string where
  "i7_name = ''Intel Core i7-7500U @ 2.70GHz''"

definition passmark_rows :: "row list" where
  "passmark_rows =
     [csv_row ''AMD Ryzen 5 3500U'' ''7000'',
      csv_row ''Intel Core i7-7500U @ 2.70GHz'' ''3641'',
      csv_row ''Intel Celeron J1900 @ 1.99GHz'' ''1300'']"

definition passmark_index :: assessor where
  "passmark_index = snd (CpuAssessor (one_file passmark_rows) ''cpumarks.csv'' initial)"

text \<open>A name with a comma, alone in its file.\<close>

definition comma_name :: string where
  "comma_name = ''AMD A6-9225 RADEON R4, 5 COMPUTE CORES 2C+3G''"

definition comma_index :: assessor where
  "comma_index =
     snd (CpuAssessor (one_file [csv_row comma_name ''1500'']) ''cpumarks.csv'' initial)"

text \<open>Data of the calibration examples: a file with the mark 97, a file with the mark
  3638 and the historical marks of the scenario.\<close>

definition low_index :: assessor where
  "low_index =
     snd (CpuAssessor (one_file [csv_row ''Intel Core i5-3380M'' ''97'']) ''cpumarks.csv'' initial)"

definition pred_index :: assessor where
  "pred_index =
     snd (CpuAssessor (one_file [csv_row ''Intel Core i7-7500U @ 2.70GHz'' ''3638''])
            ''cpumarks.csv'' initial)"

definition i7_history :: "(int \<times> string) list" where
  "i7_history =
     [(3641, ''BXPC24-0264/BXPC24-0264-bolc2.csv''),
      (3635, ''SDPC25-0134/SDPC25-0134-bolc2.csv''),
      (3630, ''VIPC25-0160/VIPC25-0160-bolc2.csv'')]"

section \<open>Properties\<close>

subsection \<open>The parts of a result\<close>

lemma parts_hit [simp]:
  "mark_of (hit s r n) = fst r" "step_of (hit s r n) = s" "line_of (hit s r n) = snd r"
  "name_of (hit s r n) = n" "details_of (hit s r n) = []"
  by (simp_all add: hit_def step_of_def name_of_def mark_of_def line_of_def details_of_def)

lemma parts_tuple [simp]:
  "mark_of (m, (s, l, n), d) = m" "step_of (m, (s, l, n), d) = s" "line_of (m, (s, l, n), d) = l"
  "name_of (m, (s, l, n), d) = n" "details_of (m, (s, l, n), d) = d"
  by (simp_all add: step_of_def name_of_def mark_of_def line_of_def details_of_def)


subsection \<open>The tokenizer\<close>

lemma keytoset_step_Un: "keytoset_step t s = s \<union> keytoset_step t {}"
  by (auto simp: keytoset_step_def split: option.splits)

lemma fold_keytoset_step:
  "fold keytoset_step ts s = s \<union> (\<Union>t\<in>set ts. keytoset_step t {})"
proof (induction ts arbitrary: s)
  case Nil
  show ?case by simp
next
  case (Cons t ts)
  have "fold keytoset_step (t # ts) s = fold keytoset_step ts (keytoset_step t s)" by simp
  also have "\<dots> = keytoset_step t s \<union> (\<Union>u\<in>set ts. keytoset_step u {})" by (rule Cons.IH)
  also have "\<dots> = s \<union> (\<Union>u\<in>set (t # ts). keytoset_step u {})"
    using keytoset_step_Un [of t s] by auto
  finally show ?case .
qed

lemma keytoset_Union: "keytoset k = (\<Union>t\<in>set (re_split k). keytoset_step t {})"
  by (simp add: keytoset_def fold_keytoset_step)

lemma finite_keytoset_step: "finite (keytoset_step t {})"
  by (simp add: keytoset_step_def split: option.splits)

lemma finite_keytoset: "finite (keytoset k)"
  by (simp add: keytoset_Union finite_keytoset_step)

lemma re_split_last: "dropWhile (\<lambda>c. \<not> issep c) s = [] \<Longrightarrow> re_split s = [s]"
  by (subst re_split.simps) simp

lemma re_split_more:
  "dropWhile (\<lambda>c. \<not> issep c) s \<noteq> [] \<Longrightarrow>
   re_split s = takeWhile (\<lambda>c. \<not> issep c) s
        # re_split (dropWhile issep (dropWhile (\<lambda>c. \<not> issep c) s))"
  by (subst re_split.simps) (simp only: if_False)

lemma re_split_pieces: "t \<in> set (re_split s) \<Longrightarrow> list_all (\<lambda>c. \<not> issep c) t"
proof (induction s rule: re_split.induct)
  case (1 s)
  show ?case
  proof (cases "dropWhile (\<lambda>c. \<not> issep c) s = []")
    case True
    with "1.prems" have "t = s" by (simp only: re_split_last set_simps singleton_iff empty_iff)
    moreover from True have "list_all (\<lambda>c. \<not> issep c) s"
      by (simp add: dropWhile_eq_Nil_conv list_all_iff)
    ultimately show ?thesis by simp
  next
    case False
    from "1.prems" have "t \<in> set (takeWhile (\<lambda>c. \<not> issep c) s
        # re_split (dropWhile issep (dropWhile (\<lambda>c. \<not> issep c) s)))"
      by (simp only: re_split_more [OF False])
    then have "t = takeWhile (\<lambda>c. \<not> issep c) s
      \<or> t \<in> set (re_split (dropWhile issep (dropWhile (\<lambda>c. \<not> issep c) s)))"
      by (simp only: set_simps insert_iff)
    then show ?thesis
    proof
      assume "t = takeWhile (\<lambda>c. \<not> issep c) s"
      then show ?thesis by (auto simp: list_all_iff dest: set_takeWhileD)
    next
      assume "t \<in> set (re_split (dropWhile issep (dropWhile (\<lambda>c. \<not> issep c) s)))"
      then show ?thesis by (rule "1.IH" [OF False])
    qed
  qed
qed

lemma digit_not_sep: "isdigit c \<Longrightarrow> \<not> issep c"
  by (auto simp: isdigit_def issep_def)

lemma word_not_sep: "isword c \<Longrightarrow> \<not> issep c"
  by (auto simp: isword_def isdigit_def isupper_def issep_def)

lemma word_not_lf: "isword c \<Longrightarrow> c \<noteq> CHR 0x0A"
  by (auto simp: isword_def isdigit_def isupper_def)

lemma digit_not_lf: "isdigit c \<Longrightarrow> c \<noteq> CHR 0x0A"
  by (auto simp: isdigit_def)

lemma contains_hd: "contains sub s \<Longrightarrow> sub \<noteq> [] \<Longrightarrow> hd sub \<in> set s"
proof (induction s)
  case Nil
  then show ?case by simp
next
  case (Cons a s)
  show ?case
  proof (cases "prefix sub (a # s)")
    case True
    then obtain zs where "a # s = sub @ zs" by (auto simp: prefix_def)
    with Cons.prems(2) have "hd sub = a" by (cases sub) auto
    then show ?thesis by simp
  next
    case False
    with Cons show ?thesis by simp
  qed
qed

lemma digits_no_Duo: "list_all isdigit d \<Longrightarrow> \<not> contains ''Duo'' d"
proof
  assume a: "list_all isdigit d" and "contains ''Duo'' d"
  then have "CHR ''D'' \<in> set d" using contains_hd [of "''Duo''" d] by simp
  with a have "isdigit CHR ''D''" by (simp add: list_all_iff)
  then show False by (simp add: isdigit_def)
qed

lemma settled_digits:
  assumes "d \<noteq> []" "list_all isdigit d"
  shows "settled d"
proof -
  have "last d \<in> set d" using assms(1) by simp
  then have "isdigit (last d)" using assms(2) by (simp add: list_all_iff)
  then have ch: "chomp d = d" using digit_not_lf by (auto simp: chomp_def)
  have num: "re_numeric d" using assms ch by (simp add: re_numeric_def)
  have "keytoset_step d {} = {d}"
    using assms num digits_no_Duo [OF assms(2)]
    by (simp add: keytoset_step_def split: option.splits)
  moreover have "list_all (\<lambda>c. \<not> issep c) d"
    using assms(2) digit_not_sep by (auto simp: list_all_iff)
  ultimately show ?thesis using assms(1) by (simp add: settled_def)
qed

lemma settled_letter:
  assumes "isword c"
  shows "settled [c]"
proof -
  have ch: "chomp [c] = [c]" using word_not_lf [OF assms] by (simp add: chomp_def)
  have "re_digits_letters [c] = None"
    by (simp add: re_digits_letters_def ch)
  then have "keytoset_step [c] {} = {[c]}"
    by (simp add: keytoset_step_def)
  then show ?thesis using word_not_sep [OF assms] by (simp add: settled_def)
qed

lemma keytoset_step_settled:
  assumes sep: "list_all (\<lambda>c. \<not> issep c) t" and u: "u \<in> keytoset_step t {}"
  shows "settled u"
proof (cases "t = [] \<or> contains ''Duo'' t")
  case True
  with u show ?thesis by (simp add: keytoset_step_def)
next
  case skip: False
  show ?thesis
  proof (cases "re_digits_letters t = None \<or> re_numeric t")
    case True
    then have whole: "keytoset_step t {} = {t}"
      using skip by (auto simp: keytoset_step_def split: option.splits)
    with u have "u = t" by simp
    with whole skip sep show ?thesis by (simp add: settled_def)
  next
    case False
    then obtain d l where m: "re_digits_letters t = Some (d, l)" and nn: "\<not> re_numeric t"
      by auto
    let ?u = "chomp t"
    from m have dne: "takeWhile isdigit ?u \<noteq> []"
      by (auto simp: re_digits_letters_def Let_def split: if_splits)
    have lne: "dropWhile isdigit ?u \<noteq> []"
    proof
      assume "dropWhile isdigit ?u = []"
      then have "list_all isdigit ?u" by (simp add: dropWhile_eq_Nil_conv list_all_iff)
      moreover have "?u \<noteq> []" using dne by auto
      ultimately show False using nn by (simp add: re_numeric_def)
    qed
    from m dne lne have d: "d = takeWhile isdigit ?u" and l: "l = dropWhile isdigit ?u"
      and lw: "list_all isword l"
      by (auto simp: re_digits_letters_def Let_def split: if_splits)
    have "keytoset_step t {} = insert d (set (map (\<lambda>c. [c]) l))"
      using skip m nn by (simp add: keytoset_step_def)
    with u consider "u = d" | c where "c \<in> set l" "u = [c]" by auto
    then show ?thesis
    proof cases
      case 1
      have "list_all isdigit d" unfolding d by (auto simp: list_all_iff dest: set_takeWhileD)
      with dne d 1 show ?thesis by (simp add: settled_digits)
    next
      case 2
      with lw have "isword c" by (simp add: list_all_iff)
      with 2 show ?thesis by (simp add: settled_letter)
    qed
  qed
qed

lemma keytoset_settled: "u \<in> keytoset k \<Longrightarrow> settled u"
  by (auto simp: keytoset_Union dest: re_split_pieces keytoset_step_settled)

lemma re_split_whole:
  assumes "list_all (\<lambda>c. \<not> issep c) x"
  shows "re_split x = [x]"
proof -
  have "dropWhile (\<lambda>c. \<not> issep c) x = []"
    using assms by (simp add: dropWhile_eq_Nil_conv list_all_iff)
  then show ?thesis by (rule re_split_last)
qed

lemma re_split_join:
  assumes "ts \<noteq> []" "\<forall>t\<in>set ts. t \<noteq> [] \<and> list_all (\<lambda>c. \<not> issep c) t"
  shows "re_split (join '' '' ts) = ts"
  using assms
proof (induction ts rule: induct_list012)
  case 1
  then show ?case by simp
next
  case (2 x)
  then show ?case by (simp add: re_split_whole)
next
  case (3 x y ys)
  let ?rest = "join '' '' (y # ys)"
  have x: "\<forall>c\<in>set x. \<not> issep c" using "3.prems" by (simp add: list_all_iff)
  have sp: "issep CHR '' ''" by (simp add: issep_def)
  have tw: "takeWhile (\<lambda>c. \<not> issep c) (x @ CHR '' '' # ?rest) = x"
    using x sp by (simp add: takeWhile_append2)
  have dw: "dropWhile (\<lambda>c. \<not> issep c) (x @ CHR '' '' # ?rest) = CHR '' '' # ?rest"
    using x sp by (simp add: dropWhile_append2)
  have yne: "y \<noteq> []" and ysep: "\<not> issep (hd y)"
    using "3.prems" by (auto simp: list_all_iff)
  have "?rest \<noteq> [] \<and> hd ?rest = hd y" using yne by (cases ys) auto
  then have dr: "dropWhile issep ?rest = ?rest" using ysep by (cases ?rest) auto
  have "re_split (x @ CHR '' '' # ?rest) = x # re_split ?rest"
    using re_split_more [of "x @ CHR '' '' # ?rest"] by (simp add: tw dw dr sp)
  then have "re_split (join '' '' (x # y # ys)) = x # re_split ?rest"
    by simp
  moreover have "re_split ?rest = y # ys" using "3.IH"(2) "3.prems" by simp
  ultimately show ?case by simp
qed


text \<open>
  Claim C6. \<^verbatim>\<open>_keytoset\<close> is idempotent on its own output: the tokens of a name, sorted
  and joined by single spaces, have the token set of the name.
\<close>

theorem keytoset_idempotent:
  "keytoset (join '' '' (sorted_list_of_set (keytoset name))) = keytoset name"
proof -
  let ?T = "keytoset name"
  let ?ts = "sorted_list_of_set ?T"
  have set_ts: "set ?ts = ?T" by (simp add: finite_keytoset)
  have st: "\<forall>t\<in>set ?ts. settled t" using set_ts keytoset_settled by auto
  show ?thesis
  proof (cases "?ts = []")
    case True
    then have "?T = {}" using set_ts by auto
    moreover have "join '' '' ?ts = []" using True by (simp only: join.simps)
    moreover have "keytoset [] = {}"
      by (simp add: keytoset_def re_split_last keytoset_step_def)
    ultimately show ?thesis by (simp only:)
  next
    case False
    have "re_split (join '' '' ?ts) = ?ts"
      using False st by (intro re_split_join) (auto simp: settled_def)
    then have "keytoset (join '' '' ?ts) = (\<Union>t\<in>set ?ts. keytoset_step t {})"
      by (simp add: keytoset_Union)
    also have "\<dots> = (\<Union>t\<in>set ?ts. {t})"
      using st by (auto simp: settled_def)
    also have "\<dots> = ?T" using set_ts by auto
    finally show ?thesis .
  qed
qed


subsection \<open>The cascade\<close>

text \<open>
  Claim C1. A result of the step \<^verbatim>\<open>CLEVER_1\<close>, \<^verbatim>\<open>CLEVER_2\<close>, \<^verbatim>\<open>CLEVER_3_1\<close> or
  \<^verbatim>\<open>DESPERATE_1\<close> is returned only when the list of candidates of that step has exactly
  one element, and the name returned is that element; with no candidate or with several
  the step is never the one returned.
\<close>

theorem candidate_tiers_accept_singletons:
  "(step_of (nmatch st x) = CLEVER_1 \<longrightarrow>
      length (candidates1 st x) = 1 \<and> name_of (nmatch st x) = hd (candidates1 st x)) \<and>
   (step_of (nmatch st x) = CLEVER_2 \<longrightarrow>
      length (candidates2 st x) = 1 \<and> name_of (nmatch st x) = hd (candidates2 st x)) \<and>
   (step_of (nmatch st x) = CLEVER_3_1 \<longrightarrow>
      length (candidates3 st x) = 1 \<and> name_of (nmatch st x) = hd (candidates3 st x)) \<and>
   (step_of (nmatch st x) = DESPERATE_1 \<longrightarrow>
      length (candidates4 st x) = 1 \<and> name_of (nmatch st x) = hd (candidates4 st x))"
  by (simp add: nmatch_def split: option.split)

theorem candidate_tiers_accept_singletons_witness:
  "step_of (nmatch i7_index i7_query) = CLEVER_2 \<and>
   length (candidates2 i7_index i7_query) = 1 \<and>
   name_of (nmatch i7_index i7_query) = hd (candidates2 i7_index i7_query)"
proof -
  have "step_of (nmatch i7_index i7_query) = CLEVER_2" by code_simp
  then show ?thesis
    using candidate_tiers_accept_singletons [of i7_index i7_query] by simp
qed


text \<open>
  Claim C4. \<^verbatim>\<open>_nmatch\<close> is a total function: it raises nothing. When no lookup finds a
  mark, no list of candidates has one element and no candidate has the tokens of the
  query, the result has the step \<^verbatim>\<open>FAILED\<close>; such a result has the mark 0, the line 0,
  an empty name and five details, the token set of the query and the four lists of
  candidates. A result of any other step has no details.
\<close>

theorem unmatched_query_fails:
  "(fst (dict_get (marksnoat st) x (0, 0)) = 0 \<and>
    fst (dict_get (marks st) (cx1 x) (0, 0)) = 0 \<and>
    fst (dict_get (marks st) (cx2 x) (0, 0)) = 0 \<and>
    fst (dict_get (marksnoat st) (cx2 x) (0, 0)) = 0 \<and>
    length (candidates1 st x) \<noteq> 1 \<and> length (candidates2 st x) \<noteq> 1 \<and>
    length (candidates3 st x) \<noteq> 1 \<and> tokenequal st x = None \<and>
    length (candidates4 st x) \<noteq> 1
    \<longrightarrow> step_of (nmatch st x) = FAILED) \<and>
   (step_of (nmatch st x) = FAILED \<longrightarrow>
      mark_of (nmatch st x) = 0 \<and> line_of (nmatch st x) = 0 \<and> name_of (nmatch st x) = [] \<and>
      details_of (nmatch st x) =
        [Tokens (strip_markers x) (mys x),
         Candidates (candidates1 st x), Candidates (candidates2 st x),
         Candidates (candidates3 st x), Candidates (candidates4 st x)]) \<and>
   (step_of (nmatch st x) \<noteq> FAILED \<longrightarrow> details_of (nmatch st x) = [])"
  by (simp add: nmatch_def split: option.split)

theorem unmatched_query_fails_witness:
  "nmatch i7_index ''VIA Nano U3500 @ 1000MHz'' =
     (0, (FAILED, 0, []),
      [Tokens ''VIA Nano U3500 @ 1000MHz'' {''VIA'', ''Nano'', ''U3500'', ''1000'', ''M'', ''H'', ''z''},
       Candidates [], Candidates [], Candidates [], Candidates []]) \<and>
   details_of (nmatch i7_index i7_query) = []"
proof -
  have "nmatch i7_index ''VIA Nano U3500 @ 1000MHz'' =
     (0, (FAILED, 0, []),
      [Tokens ''VIA Nano U3500 @ 1000MHz'' {''VIA'', ''Nano'', ''U3500'', ''1000'', ''M'', ''H'', ''z''},
       Candidates [], Candidates [], Candidates [], Candidates []])"
    by code_simp
  moreover have "step_of (nmatch i7_index i7_query) \<noteq> FAILED" by code_simp
  ultimately show ?thesis
    using unmatched_query_fails [of i7_index i7_query] by simp
qed


text \<open>
  Claim C5. The step of lines 119 to 121 on a string with two vendor markers: the result
  starts at the later marker, not at the first one, and the name that \<^verbatim>\<open>SIMPLE_2\<close> looks
  up has lost the model.
\<close>

theorem vendor_step_keeps_last_marker:
  "vendor_step ''AMD Ryzen 5 with AMD Radeon Graphics'' = ''AMD Radeon Graphics'' \<and>
   cx2 ''AMD Ryzen 5 with AMD Radeon Graphics'' = ''AMD Radeon Graphics''"
  by code_simp


subsection \<open>The class is initialised once\<close>

lemma init_initialized: "is_initialized st \<Longrightarrow> init fs mf st = (Returned (), st)"
  by (simp add: init_def)

lemma CpuAssessor_initialized:
  "is_initialized st \<Longrightarrow> CpuAssessor fs mf st = (Returned (), st)"
  by (simp add: CpuAssessor_def init_initialized)

lemma get_mark_json_initialized:
  "is_initialized st \<Longrightarrow>
   get_mark_json fs cpu mf st =
     (Result (mark_of (nmatch st cpu)) cpu (step_of (nmatch st cpu)) (basename mf)
             (line_of (nmatch st cpu)) (name_of (nmatch st cpu)) (details_of (nmatch st cpu)), st)"
  by (simp add: get_mark_json_def CpuAssessor_initialized assess_def
        mark_of_def step_of_def line_of_def name_of_def details_of_def split: prod.split)

lemma CpuAssessor_Returned:
  assumes "\<not> is_initialized st0" "CpuAssessor fs mf st0 = (Returned (), st1)"
  shows "is_initialized st1"
    and "\<exists>rows mk. fs mf = Some rows \<and> init_rows rows 2 (marks st0) = (None, mk) \<and>
           marks st1 = mk \<and> marksnoat st1 = build_marksnoat mk \<and>
           markswithsets st1 = build_markswithsets mk"
  using assms
  by (auto simp: CpuAssessor_def init_def split: option.splits prod.splits outcome.splits)


text \<open>
  Claim C10. Once a \<^verbatim>\<open>CpuAssessor\<close> has been constructed from a class that was not
  initialised, the class holds the index built by that construction; every later
  construction returns at once and changes nothing, whatever its file, and every later
  \<^verbatim>\<open>get_mark_json\<close> answers from that index and reports the base name of its own file,
  leaving the class as it is.
\<close>

theorem later_marksfile_ignored:
  assumes "\<not> is_initialized st0" and "CpuAssessor fs1 mf1 st0 = (Returned (), st1)"
  shows "(\<exists>rows mk. fs1 mf1 = Some rows \<and> init_rows rows 2 (marks st0) = (None, mk) \<and>
            marks st1 = mk \<and> marksnoat st1 = build_marksnoat mk \<and>
            markswithsets st1 = build_markswithsets mk) \<and>
         CpuAssessor fs2 mf2 st1 = (Returned (), st1) \<and>
         get_mark_json fs2 cpu mf2 st1 =
           (Result (mark_of (nmatch st1 cpu)) cpu (step_of (nmatch st1 cpu)) (basename mf2)
                   (line_of (nmatch st1 cpu)) (name_of (nmatch st1 cpu))
                   (details_of (nmatch st1 cpu)), st1)"
  using CpuAssessor_Returned [OF assms]
  by (simp add: CpuAssessor_initialized get_mark_json_initialized)

theorem later_marksfile_ignored_witness:
  "get_mark_json other_fs i7_query ''/srv/marks/other.csv'' i7_index =
     (Result 3641 i7_query CLEVER_2 ''other.csv'' 2 i7_query [], i7_index) \<and>
   fst (get_mark_json other_fs i7_query ''/srv/marks/other.csv'' initial) =
     Result 9999 i7_query CLEVER_2 ''other.csv'' 2 i7_query []"
proof -
  have a: "\<not> is_initialized initial" by (simp add: initial_def)
  have "fst (CpuAssessor i7_fs ''cpumarks.csv'' initial) = Returned ()" by code_simp
  then have b: "CpuAssessor i7_fs ''cpumarks.csv'' initial = (Returned (), i7_index)"
    by (simp add: i7_index_def prod_eq_iff)
  have r: "nmatch i7_index i7_query = (3641, (CLEVER_2, 2, i7_query), [])" by code_simp
  have n: "basename ''/srv/marks/other.csv'' = ''other.csv''" by code_simp
  have f: "fst (get_mark_json other_fs i7_query ''/srv/marks/other.csv'' initial) =
     Result 9999 i7_query CLEVER_2 ''other.csv'' 2 i7_query []" by code_simp
  show ?thesis
    using later_marksfile_ignored [OF a b, of other_fs "''/srv/marks/other.csv''" i7_query] f
    by (simp add: r n mark_of_def step_of_def line_of_def name_of_def details_of_def)
qed


subsection \<open>Reading the rows\<close>

lemma init_rows_append:
  "init_rows (pre @ rest) lno mk =
     (case init_rows pre lno mk of
        (None, mk') \<Rightarrow> init_rows rest (lno + length pre) mk'
      | (Some e, mk') \<Rightarrow> (Some e, mk'))"
proof (induction pre arbitrary: lno mk)
  case Nil
  show ?case by simp
next
  case (Cons r pre)
  show ?case
    by (simp add: Cons.IH split: outcome.split field.split option.split prod.split)
qed

lemma init_rows_no_mark:
  assumes "\<forall>r\<in>set rows. (\<exists>nam. get_name r = Returned (Str nam)) \<and> get_cpumark r = Raised e"
  shows "init_rows rows lno mk = (if \<exists>r\<in>set rows. vendor_row r then (Some e, mk) else (None, mk))"
  using assms
proof (induction rows arbitrary: lno)
  case Nil
  show ?case by simp
next
  case (Cons r rows)
  then obtain nam where nam: "get_name r = Returned (Str nam)" and m: "get_cpumark r = Raised e"
    by auto
  show ?case
  proof (cases "is_vendor nam")
    case True
    then show ?thesis by (simp add: nam m vendor_row_def)
  next
    case False
    have "init_rows (r # rows) lno mk = init_rows rows (lno + 1) mk"
      using False by (simp add: nam)
    also have "\<dots> = (if \<exists>r\<in>set rows. vendor_row r then (Some e, mk) else (None, mk))"
      using Cons.prems by (intro Cons.IH) simp
    finally show ?thesis using False by (simp add: vendor_row_def nam)
  qed
qed


text \<open>
  Claim C7, as amended. The name of a row is the field \<^verbatim>\<open>name\<close>, else \<^verbatim>\<open>NAME\<close>, else
  \<^verbatim>\<open>CPUNAME\<close>; its mark is the field \<^verbatim>\<open>cpumark\<close>, else \<^verbatim>\<open>CPUMARK\<close>. The columns are
  looked for row by row, while the rows are read. A file with at least one row and no column
  for the name makes the construction raise the error of the name; a file with no column
  for the mark, whose names are strings, makes it raise the error of the mark when one of
  its rows has a vendor marker in its name, and is read without error, to an index with
  no new entry, when none has. An error aborts the construction and leaves the class
  uninitialised.
\<close>

theorem column_aliases_checked_per_row:
  "(get_name r = (case r ''name'' of Some v \<Rightarrow> Returned v | None \<Rightarrow>
                  (case r ''NAME'' of Some v \<Rightarrow> Returned v | None \<Rightarrow>
                  (case r ''CPUNAME'' of Some v \<Rightarrow> Returned v | None \<Rightarrow> Raised no_name_column)))) \<and>
   (get_cpumark r = (case r ''cpumark'' of Some v \<Rightarrow> Returned v | None \<Rightarrow>
                  (case r ''CPUMARK'' of Some v \<Rightarrow> Returned v | None \<Rightarrow> Raised no_mark_column))) \<and>
   (\<not> is_initialized st \<and> fs mf = Some rows \<and> rows \<noteq> [] \<and>
    (\<forall>r\<in>set rows. get_name r = Raised no_name_column)
    \<longrightarrow> CpuAssessor fs mf st = (Raised no_name_column, st)) \<and>
   (\<not> is_initialized st \<and> fs mf = Some rows \<and>
    (\<forall>r\<in>set rows. (\<exists>nam. get_name r = Returned (Str nam)) \<and> get_cpumark r = Raised no_mark_column)
    \<longrightarrow> CpuAssessor fs mf st =
          (if \<exists>r\<in>set rows. vendor_row r then (Raised no_mark_column, st)
           else (Returned (),
                 st\<lparr>is_initialized := True, marksnoat := build_marksnoat (marks st),
                    markswithsets := build_markswithsets (marks st)\<rparr>)))"
proof (intro conjI impI)
  show "get_name r = (case r ''name'' of Some v \<Rightarrow> Returned v | None \<Rightarrow>
                  (case r ''NAME'' of Some v \<Rightarrow> Returned v | None \<Rightarrow>
                  (case r ''CPUNAME'' of Some v \<Rightarrow> Returned v | None \<Rightarrow> Raised no_name_column)))"
    by (simp add: get_name_def)
  show "get_cpumark r = (case r ''cpumark'' of Some v \<Rightarrow> Returned v | None \<Rightarrow>
                  (case r ''CPUMARK'' of Some v \<Rightarrow> Returned v | None \<Rightarrow> Raised no_mark_column))"
    by (simp add: get_cpumark_def)
next
  assume a: "\<not> is_initialized st \<and> fs mf = Some rows \<and> rows \<noteq> [] \<and>
    (\<forall>r\<in>set rows. get_name r = Raised no_name_column)"
  then obtain r0 rs where rows: "rows = r0 # rs" by (cases rows) auto
  with a have "init_rows rows 2 (marks st) = (Some no_name_column, marks st)" by simp
  with a show "CpuAssessor fs mf st = (Raised no_name_column, st)"
    by (simp add: CpuAssessor_def init_def)
next
  assume a: "\<not> is_initialized st \<and> fs mf = Some rows \<and>
    (\<forall>r\<in>set rows. (\<exists>nam. get_name r = Returned (Str nam)) \<and> get_cpumark r = Raised no_mark_column)"
  then have "init_rows rows 2 (marks st) =
      (if \<exists>r\<in>set rows. vendor_row r then (Some no_mark_column, marks st) else (None, marks st))"
    by (intro init_rows_no_mark) simp
  with a show "CpuAssessor fs mf st =
          (if \<exists>r\<in>set rows. vendor_row r then (Raised no_mark_column, st)
           else (Returned (),
                 st\<lparr>is_initialized := True, marksnoat := build_marksnoat (marks st),
                    markswithsets := build_markswithsets (marks st)\<rparr>))"
    by (simp add: CpuAssessor_def init_def)
qed

theorem column_aliases_checked_per_row_witness:
  "CpuAssessor (one_file noname_rows) ''cpumarks.csv'' initial = (Raised no_name_column, initial) \<and>
   CpuAssessor (one_file nomark_rows) ''cpumarks.csv'' initial = (Raised no_mark_column, initial)"
proof -
  have i: "\<not> is_initialized initial" by (simp add: initial_def)
  have f: "one_file noname_rows ''cpumarks.csv'' = Some noname_rows"
    "one_file nomark_rows ''cpumarks.csv'' = Some nomark_rows"
    by (simp_all add: one_file_def)
  have a: "noname_rows \<noteq> []" "\<forall>r\<in>set noname_rows. get_name r = Raised no_name_column"
    by (simp_all add: noname_rows_def get_name_def)
  have b: "\<forall>r\<in>set nomark_rows.
      (\<exists>nam. get_name r = Returned (Str nam)) \<and> get_cpumark r = Raised no_mark_column"
    by (simp add: nomark_rows_def get_name_def get_cpumark_def)
  have c: "\<exists>r\<in>set nomark_rows. vendor_row r"
    by (simp add: nomark_rows_def vendor_row_def get_name_def is_vendor_def)
  show ?thesis
    using column_aliases_checked_per_row
            [where st = initial and fs = "one_file noname_rows" and mf = "''cpumarks.csv''"
               and rows = noname_rows]
          column_aliases_checked_per_row
            [where st = initial and fs = "one_file nomark_rows" and mf = "''cpumarks.csv''"
               and rows = nomark_rows]
          i f a b c
    by simp
qed


text \<open>Claim C7, as stated, fails on a file with no column for the mark and no vendor
  marker in its names: the construction returns and the class is initialised.\<close>

theorem missing_mark_column_unnoticed:
  "map get_cpumark via_rows = [Raised no_mark_column] \<and>
   fst (CpuAssessor (one_file via_rows) ''cpumarks.csv'' initial) = Returned () \<and>
   is_initialized (snd (CpuAssessor (one_file via_rows) ''cpumarks.csv'' initial))"
  by code_simp


text \<open>
  Claim C8, as amended. A row with a vendor marker in its name and a mark that \<^verbatim>\<open>int\<close>
  rejects aborts the construction with \<^verbatim>\<open>ValueError\<close>: when the rows before it were read
  without error, the index holds their entries only, no later row is read and the class
  stays uninitialised. The rows that are skipped are those with no vendor marker in their
  name, whose mark is not looked at.
\<close>

theorem unparsable_mark_aborts_build:
  "(\<not> is_initialized st \<and> fs mf = Some (pre @ r # post) \<and>
    init_rows pre 2 (marks st) = (None, mk) \<and>
    get_name r = Returned (Str nam) \<and> is_vendor nam \<and>
    get_cpumark r = Returned (Str m) \<and> py_int m = None
    \<longrightarrow> CpuAssessor fs mf st = (Raised ValueError, st\<lparr>marks := mk\<rparr>)) \<and>
   (get_name r = Returned (Str nam) \<and> \<not> is_vendor nam
    \<longrightarrow> init_rows (r # post) lno mk = init_rows post (lno + 1) mk)"
proof (intro conjI impI)
  assume a: "\<not> is_initialized st \<and> fs mf = Some (pre @ r # post) \<and>
    init_rows pre 2 (marks st) = (None, mk) \<and>
    get_name r = Returned (Str nam) \<and> is_vendor nam \<and>
    get_cpumark r = Returned (Str m) \<and> py_int m = None"
  then have "init_rows (r # post) (2 + length pre) mk = (Some ValueError, mk)" by simp
  with a have "init_rows (pre @ r # post) 2 (marks st) = (Some ValueError, mk)"
    by (simp add: init_rows_append)
  with a show "CpuAssessor fs mf st = (Raised ValueError, st\<lparr>marks := mk\<rparr>)"
    by (simp add: CpuAssessor_def init_def)
next
  assume "get_name r = Returned (Str nam) \<and> \<not> is_vendor nam"
  then show "init_rows (r # post) lno mk = init_rows post (lno + 1) mk" by simp
qed

theorem unparsable_mark_aborts_build_witness:
  "CpuAssessor (one_file na_rows) ''cpumarks.csv'' initial =
     (Raised ValueError, initial\<lparr>marks := [(''AMD Ryzen 5 3500U'', (7000, 2))]\<rparr>)"
proof -
  have i: "\<not> is_initialized initial" by (simp add: initial_def)
  have f: "one_file na_rows ''cpumarks.csv'' =
      Some ([csv_row ''AMD Ryzen 5 3500U'' ''7000'']
            @ csv_row ''Intel Core i5-3380M @ 2.90GHz'' ''N/A''
            # [csv_row ''Intel Celeron J1900 @ 1.99GHz'' ''1300''])"
    by (simp add: one_file_def na_rows_def)
  have p: "init_rows [csv_row ''AMD Ryzen 5 3500U'' ''7000''] 2 (marks initial) =
      (None, [(''AMD Ryzen 5 3500U'', (7000, 2))])" by code_simp
  have n: "get_name (csv_row ''Intel Core i5-3380M @ 2.90GHz'' ''N/A'') =
      Returned (Str ''Intel Core i5-3380M @ 2.90GHz'')" by code_simp
  have v: "is_vendor ''Intel Core i5-3380M @ 2.90GHz''" by code_simp
  have m: "get_cpumark (csv_row ''Intel Core i5-3380M @ 2.90GHz'' ''N/A'') =
      Returned (Str ''N/A'')" by code_simp
  have x: "py_int ''N/A'' = None" by code_simp
  show ?thesis
    using unparsable_mark_aborts_build
            [where st = initial and fs = "one_file na_rows" and mf = "''cpumarks.csv''"
               and pre = "[csv_row ''AMD Ryzen 5 3500U'' ''7000'']"
               and r = "csv_row ''Intel Core i5-3380M @ 2.90GHz'' ''N/A''"
               and post = "[csv_row ''Intel Celeron J1900 @ 1.99GHz'' ''1300'']"
               and mk = "[(''AMD Ryzen 5 3500U'', (7000, 2))]"
               and nam = "''Intel Core i5-3380M @ 2.90GHz''" and m = "''N/A''"]
          i f p n v m x
    by simp
qed


text \<open>Claim C8, as stated, fails on a file whose second row has the mark \<^verbatim>\<open>N/A\<close>: the
  construction raises, the valid third row is not indexed and \<^verbatim>\<open>get_mark_json\<close> reports
  the error.\<close>

theorem unparsable_mark_stops_indexing:
  "fst (CpuAssessor (one_file na_rows) ''cpumarks.csv'' initial) = Raised ValueError \<and>
   map fst (marks (snd (CpuAssessor (one_file na_rows) ''cpumarks.csv'' initial))) =
     [''AMD Ryzen 5 3500U''] \<and>
   fst (get_mark_json (one_file na_rows) ''Intel Celeron J1900 @ 1.99GHz'' ''cpumarks.csv'' initial) =
     Error_result ValueError"
  by code_simp


subsection \<open>Exact lookups\<close>

lemma before_char: "c \<notin> set (before [c] s)"
  by (induction s) auto

lemma set_strip: "set (strip s) \<subseteq> set s"
proof -
  have "set (strip s) = set (dropWhile isspace (rev (dropWhile isspace s)))"
    by (simp add: strip_def)
  also have "\<dots> \<subseteq> set (rev (dropWhile isspace s))" by (auto dest: set_dropWhileD)
  also have "\<dots> \<subseteq> set s" by (auto dest: set_dropWhileD)
  finally show ?thesis .
qed

lemma keys_fold_update:
  "fst ` set (fold (\<lambda>(k, v) d. AList.update k v d) kvs d0) = fst ` set d0 \<union> fst ` set kvs"
proof (induction kvs arbitrary: d0)
  case Nil
  show ?case by simp
next
  case (Cons kv kvs)
  obtain k v where kv: "kv = (k, v)" by (cases kv)
  show ?case by (simp add: kv Cons.IH dom_update Un_commute insert_commute)
qed

lemma keys_dict_of_items: "fst ` set (dict_of_items kvs) = fst ` set kvs"
  by (simp add: dict_of_items_def keys_fold_update)

lemma marksnoat_keys:
  assumes "k \<in> fst ` set (build_marksnoat mk)"
  shows "CHR ''@'' \<notin> set k"
proof -
  from assms obtain k0 where "k = strip (before ''@'' k0)"
    by (auto simp: build_marksnoat_def keys_dict_of_items)
  then show ?thesis using set_strip [of "before ''@'' k0"] before_char [of "CHR ''@''" k0]
    by auto
qed

lemma marksnoat_miss:
  assumes "CHR ''@'' \<in> set x"
  shows "dict_get (build_marksnoat mk) x dflt = dflt"
proof -
  have "x \<notin> fst ` set (build_marksnoat mk)" using assms marksnoat_keys by blast
  then have "map_of (build_marksnoat mk) x = None" by (simp add: map_of_eq_None_iff)
  then show ?thesis by (simp add: dict_get_def)
qed

lemma init_rows_other_names:
  assumes "init_rows post lno d = (None, d')"
    and "\<forall>q\<in>set post. get_name q \<noteq> Returned (Str N)"
  shows "map_of d' N = map_of d N"
  using assms
proof (induction post arbitrary: lno d)
  case Nil
  then show ?case by simp
next
  case (Cons q post)
  from Cons.prems(1) obtain nam where nam: "get_name q = Returned (Str nam)"
    by (auto split: outcome.splits field.splits)
  with Cons.prems(2) have ne: "nam \<noteq> N" by auto
  show ?case
  proof (cases "is_vendor nam")
    case False
    with Cons.prems nam have "init_rows post (lno + 1) d = (None, d')" by simp
    with Cons.prems(2) show ?thesis by (intro Cons.IH [of "lno + 1" d]) auto
  next
    case True
    with Cons.prems(1) nam obtain m i where m: "get_cpumark q = Returned (Str m)"
      and i: "py_int m = Some i"
      by (auto split: outcome.splits field.splits option.splits)
    with Cons.prems(1) nam True
    have "init_rows post (lno + 1) (AList.update nam (i, lno) d) = (None, d')" by simp
    with Cons.prems(2) have "map_of d' N = map_of (AList.update nam (i, lno) d) N"
      by (intro Cons.IH [of "lno + 1"]) auto
    with ne show ?thesis by (simp add: update_conv')
  qed
qed

lemma init_rows_last_row:
  assumes "init_rows (pre @ r # post) lno mk = (None, mk')"
    and "get_name r = Returned (Str N)" "is_vendor N"
    and "get_cpumark r = Returned (Str m)" "py_int m = Some v"
    and "\<forall>q\<in>set post. get_name q \<noteq> Returned (Str N)"
  shows "map_of mk' N = Some (v, lno + length pre)"
proof -
  from assms(1) obtain mk1 where pre: "init_rows pre lno mk = (None, mk1)"
    and rest: "init_rows (r # post) (lno + length pre) mk1 = (None, mk')"
    by (auto simp: init_rows_append split: prod.splits option.splits)
  from rest assms(2-5)
  have "init_rows post (lno + length pre + 1) (AList.update N (v, lno + length pre) mk1) = (None, mk')"
    by simp
  then have "map_of mk' N = map_of (AList.update N (v, lno + length pre) mk1) N"
    using assms(6) by (rule init_rows_other_names)
  then show ?thesis by (simp add: update_conv')
qed


text \<open>
  Claim C2, as amended. When the class is constructed from a file with a row whose name
  is \<^verbatim>\<open>Intel Core i7-7500U @ 2.70GHz\<close>, the query without its markers, and whose mark is
  3641, and no later row has that name, the query
  \<^verbatim>\<open>Intel(R) Core(TM) i7-7500U CPU @ 2.70GHz\<close> is answered by the step \<^verbatim>\<open>SIMPLE_1\<close> with the
  mark 3641, the line of the row and that name.
\<close>

theorem i7_scenario_on_normalised_row:
  assumes "\<not> is_initialized st0" and "fs mf = Some (pre @ r # post)"
    and "CpuAssessor fs mf st0 = (Returned (), st)"
    and "get_name r = Returned (Str i7_name)" and "get_cpumark r = Returned (Str ''3641'')"
    and "\<forall>q\<in>set post. get_name q \<noteq> Returned (Str i7_name)"
  shows "nmatch st i7_query = (3641, (SIMPLE_1, 2 + length pre, i7_name), [])"
proof -
  from CpuAssessor_Returned(2) [OF assms(1) assms(3)] assms(2)
  have rows: "init_rows (pre @ r # post) 2 (marks st0) = (None, marks st)"
    and noat: "marksnoat st = build_marksnoat (marks st)"
    by auto
  have v: "is_vendor i7_name" by code_simp
  have p: "py_int ''3641'' = Some 3641" by code_simp
  have hit1: "map_of (marks st) i7_name = Some (3641, 2 + length pre)"
    using init_rows_last_row [OF rows assms(4) v assms(5) p assms(6)] .
  have at: "CHR ''@'' \<in> set i7_query" by (simp add: i7_query_def)
  have miss0: "dict_get (marksnoat st) i7_query (0, 0) = (0, 0)"
    unfolding noat using at by (rule marksnoat_miss)
  have cx: "cx1 i7_query = i7_name" by code_simp
  have hit: "dict_get (marks st) i7_name (0, 0) = (3641, 2 + length pre)"
    by (simp add: dict_get_def hit1)
  show ?thesis
    by (simp add: nmatch_def miss0 cx hit hit_def)
qed

theorem i7_scenario_on_normalised_row_witness:
  "nmatch passmark_index i7_query = (3641, (SIMPLE_1, 3, i7_name), [])"
proof -
  have i: "\<not> is_initialized initial" by (simp add: initial_def)
  have f: "one_file passmark_rows ''cpumarks.csv'' =
      Some ([csv_row ''AMD Ryzen 5 3500U'' ''7000'']
            @ csv_row ''Intel Core i7-7500U @ 2.70GHz'' ''3641''
            # [csv_row ''Intel Celeron J1900 @ 1.99GHz'' ''1300''])"
    by (simp add: one_file_def passmark_rows_def)
  have "fst (CpuAssessor (one_file passmark_rows) ''cpumarks.csv'' initial) = Returned ()"
    by code_simp
  then have c: "CpuAssessor (one_file passmark_rows) ''cpumarks.csv'' initial =
      (Returned (), passmark_index)"
    by (simp add: passmark_index_def prod_eq_iff)
  have n: "get_name (csv_row ''Intel Core i7-7500U @ 2.70GHz'' ''3641'') = Returned (Str i7_name)"
    by code_simp
  have m: "get_cpumark (csv_row ''Intel Core i7-7500U @ 2.70GHz'' ''3641'') = Returned (Str ''3641'')"
    by code_simp
  have "get_name (csv_row ''Intel Celeron J1900 @ 1.99GHz'' ''1300'') \<noteq> Returned (Str i7_name)"
    by code_simp
  then have l: "\<forall>q\<in>set [csv_row ''Intel Celeron J1900 @ 1.99GHz'' ''1300''].
      get_name q \<noteq> Returned (Str i7_name)" by simp
  show ?thesis
    using i7_scenario_on_normalised_row [OF i f c n m l] by simp
qed


text \<open>Claim C2, as stated, fails on the file that holds the row of the scenario only: the
  name with its markers is not what \<^verbatim>\<open>SIMPLE_1\<close> looks up, and the mark 3641 is found by
  the step \<^verbatim>\<open>CLEVER_2\<close>.\<close>

theorem i7_scenario_is_CLEVER_2:
  "nmatch i7_index i7_query = (3641, (CLEVER_2, 2, i7_query), []) \<and>
   step_of (nmatch i7_index i7_query) \<noteq> SIMPLE_1"
  by code_simp


text \<open>
  Claim C3, as amended. For every name of \<^verbatim>\<open>__marks\<close> whose mark is not zero and that the
  normalisation of lines 115 to 123 leaves as it is: the name as a query is answered by
  \<^verbatim>\<open>SIMPLE_1\<close> with the mark and the line stored for it, unless \<^verbatim>\<open>__marksnoat\<close> has a mark
  other than zero under that name, which is then returned by \<^verbatim>\<open>SIMPLE_0\<close>.
\<close>

theorem verbatim_name_found:
  assumes "map_of (marks st) k = Some (m, l)" and "m \<noteq> 0" and "cx1 k = k"
  shows "nmatch st k =
           (if fst (dict_get (marksnoat st) k (0, 0)) \<noteq> 0
            then (fst (dict_get (marksnoat st) k (0, 0)),
                  (SIMPLE_0, snd (dict_get (marksnoat st) k (0, 0)), k), [])
            else (m, (SIMPLE_1, l, k), []))"
  using assms by (simp add: nmatch_def dict_get_def hit_def)

theorem verbatim_name_found_witness:
  "nmatch passmark_index ''AMD Ryzen 5 3500U'' = (7000, (SIMPLE_1, 2, ''AMD Ryzen 5 3500U''), [])"
proof -
  have a: "map_of (marks passmark_index) ''AMD Ryzen 5 3500U'' = Some (7000, 2)" by code_simp
  have b: "cx1 ''AMD Ryzen 5 3500U'' = ''AMD Ryzen 5 3500U''" by code_simp
  have c: "dict_get (marksnoat passmark_index) ''AMD Ryzen 5 3500U'' (0, 0) = (0, 0)"
    by code_simp
  show ?thesis using verbatim_name_found [OF a _ b] c by simp
qed


text \<open>Claim C3, as stated, fails on a name with a comma: the normalisation cuts the name
  at the comma, the exact lookups miss and the mark is found by \<^verbatim>\<open>CLEVER_1\<close>.\<close>

theorem verbatim_name_with_comma:
  "map_of (marks comma_index) comma_name = Some (1500, 2) \<and>
   CHR ''@'' \<notin> set comma_name \<and>
   nmatch comma_index comma_name = (1500, (CLEVER_1, 2, comma_name), [])"
  by code_simp


subsection \<open>The calibration run\<close>

lemma avg_of_div:
  assumes "0 \<le> sum_list (map fst ourmarks)"
  shows "avg_of ourmarks = sum_list (map fst ourmarks) div int (length ourmarks)"
proof -
  have "sum_list (lmarks ourmarks) = real_of_int (sum_list (map fst ourmarks))"
    by (induction ourmarks) (simp_all add: lmarks_def)
  moreover have "real (length ourmarks) = real_of_int (int (length ourmarks))" by simp
  ultimately have q: "sum_list (lmarks ourmarks) / real (length ourmarks) =
      real_of_int (sum_list (map fst ourmarks)) / real_of_int (int (length ourmarks))"
    by (simp only:)
  have "0 \<le> real_of_int (sum_list (map fst ourmarks)) / real_of_int (int (length ourmarks))"
    using assms by simp
  then show ?thesis
    unfolding avg_of_def py_trunc_def q by (simp only: if_True floor_divide_of_int_eq)
qed


text \<open>
  Claim C9, as amended. In a round of \<^verbatim>\<open>test\<close> that returns, on a name whose mark is not
  zero, the name is counted as correct exactly when the absolute deviation of the mark
  from \<^verbatim>\<open>avg_\<close>, in percent of \<^verbatim>\<open>avg_\<close>, is at most the threshold, where \<^verbatim>\<open>avg_\<close> is the
  mean of the historical marks cut to an integer (their sum divided by their number with
  integer division, when the sum is not negative); otherwise the count of correct names
  stays. On the marks 3641, 3635 and 3630, the mark 3638 and the threshold 3 the name is
  counted as correct.
\<close>

theorem correct_by_truncated_mean:
  "(mark_of (nmatch st nam) \<noteq> 0 \<and>
    test_step st threshold (nam, ourmarks) t = Returned t'
    \<longrightarrow> ((ncorrect t' = ncorrect t + 1) =
            (\<bar>100 * real_of_int (mark_of (nmatch st nam) - avg_of ourmarks)
               / real_of_int (avg_of ourmarks)\<bar> \<le> threshold)) \<and>
         ((ncorrect t' = ncorrect t) =
            (\<not> \<bar>100 * real_of_int (mark_of (nmatch st nam) - avg_of ourmarks)
                 / real_of_int (avg_of ourmarks)\<bar> \<le> threshold))) \<and>
   (0 \<le> sum_list (map fst ourmarks)
    \<longrightarrow> avg_of ourmarks = sum_list (map fst ourmarks) div int (length ourmarks)) \<and>
   judge 3638 [(3641, a), (3635, b), (3630, c)] 3 t =
     Returned (t\<lparr>nhit := nhit t + 1, ncorrect := ncorrect t + 1\<rparr>)"
proof (intro conjI impI)
  assume a: "mark_of (nmatch st nam) \<noteq> 0 \<and>
    test_step st threshold (nam, ourmarks) t = Returned t'"
  define t1 where "t1 =
      t\<lparr>stats := (stats t)(step_of (nmatch st nam) := stats t (step_of (nmatch st nam)) + 1),
         failures := (if step_of (nmatch st nam) = FAILED then failures t @ [nam] else failures t)\<rparr>"
  from a have a1: "mark_of (nmatch st nam) \<noteq> 0"
    and a2: "test_step st threshold (nam, ourmarks) t = Returned t'" by simp_all
  have "test_step st threshold (nam, ourmarks) t =
      judge (mark_of (nmatch st nam)) ourmarks threshold t1"
    using a1 by (simp add: test_step_def Let_def t1_def)
  with a2 have j: "judge (mark_of (nmatch st nam)) ourmarks threshold t1 = Returned t'"
    by simp
  have nc: "ncorrect t1 = ncorrect t" by (simp add: t1_def)
  from j nc show "(ncorrect t' = ncorrect t + 1) =
           (\<bar>100 * real_of_int (mark_of (nmatch st nam) - avg_of ourmarks)
              / real_of_int (avg_of ourmarks)\<bar> \<le> threshold)"
    by (auto simp: judge_def deltapc_def split: if_splits)
  from j nc show "(ncorrect t' = ncorrect t) =
           (\<not> \<bar>100 * real_of_int (mark_of (nmatch st nam) - avg_of ourmarks)
              / real_of_int (avg_of ourmarks)\<bar> \<le> threshold)"
    by (auto simp: judge_def deltapc_def split: if_splits)
next
  assume "0 \<le> sum_list (map fst ourmarks)"
  then show "avg_of ourmarks = sum_list (map fst ourmarks) div int (length ourmarks)"
    by (rule avg_of_div)
next
  show "judge 3638 [(3641, a), (3635, b), (3630, c)] 3 t =
           Returned (t\<lparr>nhit := nhit t + 1, ncorrect := ncorrect t + 1\<rparr>)"
    by (simp add: judge_def deltapc_def avg_of_def min_of_def max_of_def lmarks_def py_trunc_def)
qed

theorem correct_by_truncated_mean_witness:
  "mark_of (nmatch pred_index i7_query) \<noteq> 0 \<and>
   test_step pred_index 3 (i7_query, i7_history) tally0 =
     Returned (tally0\<lparr>nhit := 1, ncorrect := 1, stats := (stats tally0)(SIMPLE_1 := 1)\<rparr>) \<and>
   \<bar>100 * real_of_int (mark_of (nmatch pred_index i7_query) - avg_of i7_history)
      / real_of_int (avg_of i7_history)\<bar> \<le> 3 \<and>
   avg_of i7_history = 10906 div 3"
proof -
  have n: "nmatch pred_index i7_query = (3638, (SIMPLE_1, 2, i7_name), [])" by code_simp
  have a: "mark_of (nmatch pred_index i7_query) \<noteq> 0" by (simp add: n)
  have b: "test_step pred_index 3 (i7_query, i7_history) tally0 =
     Returned (tally0\<lparr>nhit := 1, ncorrect := 1, stats := (stats tally0)(SIMPLE_1 := 1)\<rparr>)"
    by (simp add: test_step_def Let_def n i7_history_def tally0_def judge_def deltapc_def
          avg_of_def min_of_def max_of_def lmarks_def py_trunc_def)
  have c: "0 \<le> sum_list (map fst i7_history)" by (simp add: i7_history_def)
  show ?thesis
    using correct_by_truncated_mean
            [where st = pred_index and nam = i7_query and threshold = 3
               and ourmarks = i7_history and t = tally0
               and t' = "tally0\<lparr>nhit := 1, ncorrect := 1, stats := (stats tally0)(SIMPLE_1 := 1)\<rparr>"]
          a b c
    by (simp add: tally0_def i7_history_def n)
qed


text \<open>Claim C9, as stated, fails on the marks 100 and 101 with the mark 97 and the
  threshold 3: the mean is 100.5 and the mark deviates from it by more than 3 percent, but
  \<^verbatim>\<open>avg_\<close> is 100, the deviation from it is 3 percent and the name is counted as correct.\<close>

theorem correct_against_the_mean:
  "mark_of (nmatch low_index ''Intel Core i5-3380M'') = 97 \<and>
   ncorrect_after (test_step low_index 3
      (''Intel Core i5-3380M'', [(100, ''BXPC24-0264''), (101, ''SDPC25-0134'')]) tally0) = Some 1 \<and>
   \<not> \<bar>100 * (97 - (100 + 101) / 2) / ((100 + 101) / 2)\<bar> \<le> (3::real)"
proof -
  have n: "nmatch low_index ''Intel Core i5-3380M'' = (97, (SIMPLE_1, 2, ''Intel Core i5-3380M''), [])"
    by code_simp
  have "ncorrect_after (test_step low_index 3
      (''Intel Core i5-3380M'', [(100, ''BXPC24-0264''), (101, ''SDPC25-0134'')]) tally0) = Some 1"
    by (simp add: ncorrect_after_def test_step_def Let_def n tally0_def judge_def deltapc_def
          avg_of_def min_of_def max_of_def lmarks_def py_trunc_def)
  moreover have "\<not> \<bar>100 * (97 - (100 + 101) / 2) / ((100 + 101) / 2)\<bar> \<le> (3::real)"
    by simp
  ultimately show ?thesis by (simp add: n)
qed

end
